theory Spec2Isabelle
  imports Complex_Main
begin

section \<open>JavaScript numbers\<close>

text \<open>
  A JavaScript number is a finite value, one of the two infinities, or NaN.  Finite
  values are taken as reals: rounding of doubles and the sign of zero are not part of
  the model (a zero divisor counts as +0).  The operators below are the ones the
  adaptive module applies to numbers: \<open>/\<close>, \<open>-\<close>, \<open><\<close>, \<open><=\<close>, \<open>>\<close>, \<open>>=\<close> and
  \<open>Math.min\<close>.
\<close>

datatype jsnum = NaN | NInf | Fin real | PInf

fun js_lt :: "jsnum \<Rightarrow> jsnum \<Rightarrow> bool" where
  "js_lt NaN _ = False"
| "js_lt _ NaN = False"
| "js_lt PInf _ = False"
| "js_lt _ NInf = False"
| "js_lt NInf _ = True"
| "js_lt (Fin a) PInf = True"
| "js_lt (Fin a) (Fin b) = (a < b)"

fun js_le :: "jsnum \<Rightarrow> jsnum \<Rightarrow> bool" where
  "js_le NaN _ = False"
| "js_le _ NaN = False"
| "js_le NInf _ = True"
| "js_le _ PInf = True"
| "js_le PInf _ = False"
| "js_le (Fin a) NInf = False"
| "js_le (Fin a) (Fin b) = (a \<le> b)"

definition js_gt :: "jsnum \<Rightarrow> jsnum \<Rightarrow> bool" where
  "js_gt a b = js_lt b a"

definition js_ge :: "jsnum \<Rightarrow> jsnum \<Rightarrow> bool" where
  "js_ge a b = js_le b a"

fun js_div :: "jsnum \<Rightarrow> jsnum \<Rightarrow> jsnum" where
  "js_div NaN _ = NaN"
| "js_div _ NaN = NaN"
| "js_div (Fin a) (Fin b) =
     (if b \<noteq> 0 then Fin (a / b)
      else if a > 0 then PInf else if a < 0 then NInf else NaN)"
| "js_div (Fin a) PInf = Fin 0"
| "js_div (Fin a) NInf = Fin 0"
| "js_div PInf (Fin b) = (if b < 0 then NInf else PInf)"
| "js_div NInf (Fin b) = (if b < 0 then PInf else NInf)"
| "js_div PInf _ = NaN"
| "js_div NInf _ = NaN"

fun js_sub :: "jsnum \<Rightarrow> jsnum \<Rightarrow> jsnum" where
  "js_sub NaN _ = NaN"
| "js_sub _ NaN = NaN"
| "js_sub (Fin a) (Fin b) = Fin (a - b)"
| "js_sub (Fin a) PInf = NInf"
| "js_sub (Fin a) NInf = PInf"
| "js_sub PInf PInf = NaN"
| "js_sub PInf _ = PInf"
| "js_sub NInf NInf = NaN"
| "js_sub NInf _ = NInf"

text \<open>\<open>Math.min\<close> of two numbers: NaN as soon as one argument is NaN.\<close>

fun math_min :: "jsnum \<Rightarrow> jsnum \<Rightarrow> jsnum" where
  "math_min NaN _ = NaN"
| "math_min _ NaN = NaN"
| "math_min a b = (if js_le a b then a else b)"

section \<open>Data model\<close>

text \<open>
  A Representation carries an identifier, a bitrate and a width; an Adaptation carries
  its type, its language, the two accessibility flags and its Representations.
\<close>

record representation =
  rep_id :: string
  bitrate :: real
  width :: real

datatype mediaType = Audio | Video | Text | Other

record adaptation =
  type :: mediaType
  language :: string
  isAudioDescription :: bool
  isClosedCaption :: bool
  representations :: "representation list"

text \<open>
  The values that flow through the resolver are numbers, Representation objects
  (\<open>representations[0]\<close>) and \<open>undefined\<close> (an array read out of range).  A
  Representation is an ordinary object, so converting it to a number gives NaN, as does
  converting \<open>undefined\<close>.
\<close>

datatype jsval = Undefined | Num jsnum | Rep representation

fun toNumber :: "jsval \<Rightarrow> jsnum" where
  "toNumber Undefined = NaN"
| "toNumber (Num n) = n"
| "toNumber (Rep r) = NaN"

text \<open>
  \<open>a <= b\<close> on two such values.  Each operand is first converted to a primitive: a
  number stays a number, \<open>undefined\<close> stays \<open>undefined\<close>, and a Representation, an
  ordinary object, becomes the string \<open>[object Object]\<close>.  Two strings are compared as
  strings, so two Representations, whose strings are equal, are at most each other.
  In every other case both primitives are converted to numbers, and the string of an
  object is then NaN.
\<close>

fun js_le_val :: "jsval \<Rightarrow> jsval \<Rightarrow> bool" where
  "js_le_val (Rep a) (Rep b) = True"
| "js_le_val a b = js_le (toNumber a) (toNumber b)"

text \<open>Reading \<open>bitrates[i]\<close>: \<open>undefined\<close> out of range.\<close>

definition at_bitrates :: "real list \<Rightarrow> nat \<Rightarrow> jsval" where
  "at_bitrates bitrates i = (if i < length bitrates then Num (Fin (bitrates ! i)) else Undefined)"

section \<open>Bitrate bound resolver\<close>

text \<open>
  \<open>getClosestBitrate(bitrates, btr, threshold)\<close>: the loop runs \<open>i\<close> from
  \<open>bitrates.length - 1\<close> down to \<open>0\<close>; \<open>closestLoop bitrates btr threshold n\<close> is the
  loop with \<open>n = i + 1\<close> indices left to visit, \<open>None\<close> when it falls through.
\<close>

fun closestLoop :: "real list \<Rightarrow> jsnum \<Rightarrow> jsnum \<Rightarrow> nat \<Rightarrow> real option" where
  "closestLoop bitrates btr threshold 0 = None"
| "closestLoop bitrates btr threshold (Suc i) =
     (if js_le (js_div (Fin (bitrates ! i)) btr) (js_sub (Fin 1) threshold)
      then Some (bitrates ! i)
      else closestLoop bitrates btr threshold i)"

definition getClosestBitrate :: "real list \<Rightarrow> jsnum \<Rightarrow> jsnum \<Rightarrow> jsval" where
  "getClosestBitrate bitrates btr threshold =
     (case closestLoop bitrates btr threshold (length bitrates) of
        Some v \<Rightarrow> Num (Fin v)
      | None \<Rightarrow> at_bitrates bitrates 0)"

text \<open>
  The same function in the words of its description: scan the ascending list from the
  highest value to the lowest, take the first value \<open>v\<close> with
  \<open>v / target \<le> 1 - threshold\<close>, and the lowest value of the list when there is none.
\<close>

definition closestBitrate_spec :: "real list \<Rightarrow> jsnum \<Rightarrow> jsnum \<Rightarrow> real" where
  "closestBitrate_spec bitrates target threshold =
     (case List.find (\<lambda>v. js_le (js_div (Fin v) target) (js_sub (Fin 1) threshold)) (rev bitrates) of
        Some v \<Rightarrow> v
      | None \<Rightarrow> Min (set bitrates))"

text \<open>
  \<open>getMaxUsefulBitrateforWidth(representations, width)\<close>.  \<open>Array.prototype.sort\<close>
  sorts the array it is called on, so the function also hands back the array as it
  leaves it: the second component is \<open>representations\<close> after the call.  The
  comparator \<open>a.width - b.width\<close> orders by width; equal widths keep their order, as
  a stable sort leaves them.  \<open>maxWidth\<close> is the Representation object that
  \<open>Array.prototype.find\<close> returns (\<open>None\<close> for \<open>undefined\<close>); the filter compares
  each \<open>r.width\<close> with that object, which is converted to a number first.
\<close>

definition getMaxUsefulBitrateforWidth ::
    "representation list \<Rightarrow> jsnum \<Rightarrow> jsval \<times> representation list" where
  "getMaxUsefulBitrateforWidth reps w =
     (let sortedRepsByWidth = sort_key width reps in
      case List.find (\<lambda>r. js_ge (Fin (width r)) w) sortedRepsByWidth of
        Some maxWidth \<Rightarrow>
          (let filteredAdaptations =
                 filter (\<lambda>r. js_le (Fin (width r)) (toNumber (Rep maxWidth))) sortedRepsByWidth
           in if length filteredAdaptations \<noteq> 0
              then (Num (Fin (bitrate (last filteredAdaptations))), sortedRepsByWidth)
              else (case sortedRepsByWidth of
                      r # _ \<Rightarrow> (Rep r, sortedRepsByWidth)
                    | [] \<Rightarrow> (Undefined, sortedRepsByWidth)))
      | None \<Rightarrow> (Num PInf, sortedRepsByWidth))"

text \<open>
  What the description of the function asks for: the highest bitrate among the
  representations no wider than the narrowest one that is at least as wide as the
  target, and Infinity when no representation is that wide.
\<close>

definition maxUsefulBitrate_spec :: "representation list \<Rightarrow> real \<Rightarrow> jsnum" where
  "maxUsefulBitrate_spec reps w =
     (let wideEnough = filter (\<lambda>r. w \<le> width r) reps
      in if wideEnough = [] then PInf
         else (let tier = Min (set (map width wideEnough))
               in Fin (Max (set (map bitrate (filter (\<lambda>r. width r \<le> tier) reps))))))"

section \<open>Small helpers\<close>

text \<open>\<open>find(array, predicate)\<close>: the first element the predicate accepts, \<open>None\<close> for \<open>null\<close>.\<close>

fun find_js :: "'a list \<Rightarrow> ('a \<Rightarrow> bool) \<Rightarrow> 'a option" where
  "find_js [] predicate = None"
| "find_js (x # xs) predicate = (if predicate x then Some x else find_js xs predicate)"

text \<open>
  \<open>def(x, val)\<close> receives whatever the caller of a setter passes.  Only the type tag
  and, for a number, its value matter.
\<close>

datatype jsinput =
  InUndefined | InNull | InBoolean bool | InNumber jsnum | InString string | InObject

definition def :: "jsinput \<Rightarrow> jsnum \<Rightarrow> jsnum" where
  "def x val = (case x of InNumber n \<Rightarrow> (if js_gt n (Fin 0) then n else val) | _ \<Rightarrow> val)"

section \<open>Adaptation selection\<close>

text \<open>
  Track preferences.  The text preference is \<open>None\<close> for \<open>null\<close>, the value that asks
  for no text track.
\<close>

datatype audioTrack = AudioTrack (audioLanguage: string) (audioDescription: bool)
datatype textTrack = TextTrack (textLanguage: string) (closedCaption: bool)

text \<open>What a selector hands out: an Adaptation, \<open>null\<close>, or \<open>undefined\<close>.\<close>

datatype choice = Null | Undef | Adapt adaptation

text \<open>
  \<open>findBetterMatchIndex\<close> lives in the language utilities; the selectors take it as a
  parameter \<open>matcher\<close>, from the list of languages and the wanted language to an index,
  negative when nothing matches.
\<close>

type_synonym matcher = "string list \<Rightarrow> string \<Rightarrow> int"

definition findAdaptationByLang :: "matcher \<Rightarrow> adaptation list \<Rightarrow> string \<Rightarrow> choice" where
  "findAdaptationByLang findBetterMatchIndex adaptations lang =
     (let languages = map language adaptations;
          index = findBetterMatchIndex languages lang
      in if index \<ge> 0
         then (if nat index < length adaptations then Adapt (adaptations ! nat index) else Undef)
         else Null)"

definition findAudioAdaptation ::
    "matcher \<Rightarrow> adaptation list \<Rightarrow> string \<Rightarrow> bool \<Rightarrow> choice" where
  "findAudioAdaptation findBetterMatchIndex adaptations lang audioDesc =
     (let filteredAdaptations = filter (\<lambda>a. isAudioDescription a = audioDesc) adaptations
      in findAdaptationByLang findBetterMatchIndex filteredAdaptations lang)"

definition findTextAdaptation ::
    "matcher \<Rightarrow> adaptation list \<Rightarrow> string \<Rightarrow> bool \<Rightarrow> choice" where
  "findTextAdaptation findBetterMatchIndex adaptations lang cc =
     (let filteredAdaptations = filter (\<lambda>a. isClosedCaption a = cc) adaptations
      in findAdaptationByLang findBetterMatchIndex filteredAdaptations lang)"

text \<open>\<open>adaptations[0]\<close>.\<close>

definition firstAdaptation :: "adaptation list \<Rightarrow> choice" where
  "firstAdaptation adaptations = (case adaptations of a # _ \<Rightarrow> Adapt a | [] \<Rightarrow> Undef)"

text \<open>
  The function mapped over the audio preference,
  \<open>findAudioAdaptation(adaptations, language, audioDescription) || adaptations[0]\<close>,
  and the one mapped over the text preference.
\<close>

definition audioChoice :: "matcher \<Rightarrow> adaptation list \<Rightarrow> audioTrack \<Rightarrow> choice" where
  "audioChoice findBetterMatchIndex adaptations track =
     (case findAudioAdaptation findBetterMatchIndex adaptations
             (audioLanguage track) (audioDescription track) of
        Adapt a \<Rightarrow> Adapt a
      | _ \<Rightarrow> firstAdaptation adaptations)"

definition textChoice :: "matcher \<Rightarrow> adaptation list \<Rightarrow> textTrack option \<Rightarrow> choice" where
  "textChoice findBetterMatchIndex adaptations arg =
     (case arg of
        Some track \<Rightarrow>
          findTextAdaptation findBetterMatchIndex adaptations
            (textLanguage track) (closedCaption track)
      | None \<Rightarrow> Null)"

text \<open>
  A stream is the list of the values it carries, oldest first.  A subscriber of a
  BehaviorSubject sees its current value and then every value passed to \<open>next\<close>;
  \<open>distinctUntilChanged()\<close> drops a value equal to the one before it.  It compares
  with \<open>===\<close>, so a preference object stands here for its contents.
\<close>

definition audioAdaptationChoice ::
    "matcher \<Rightarrow> adaptation list \<Rightarrow> audioTrack list \<Rightarrow> choice list" where
  "audioAdaptationChoice findBetterMatchIndex adaptations languages_stream =
     map (audioChoice findBetterMatchIndex adaptations) (remdups_adj languages_stream)"

definition textAdaptationChoice ::
    "matcher \<Rightarrow> adaptation list \<Rightarrow> textTrack option list \<Rightarrow> choice list" where
  "textAdaptationChoice findBetterMatchIndex adaptations subtitles_stream =
     map (textChoice findBetterMatchIndex adaptations) (remdups_adj subtitles_stream)"

definition getAdaptationsChoice ::
    "matcher \<Rightarrow> mediaType \<Rightarrow> adaptation list \<Rightarrow> audioTrack list \<Rightarrow> textTrack option list
       \<Rightarrow> choice list" where
  "getAdaptationsChoice findBetterMatchIndex ty adaptations languages_stream subtitles_stream =
     (if ty = Audio then audioAdaptationChoice findBetterMatchIndex adaptations languages_stream
      else if ty = Text then textAdaptationChoice findBetterMatchIndex adaptations subtitles_stream
      else [firstAdaptation adaptations])"

section \<open>The engine: options, cells and setters\<close>

record options =
  defaultAudioTrack :: audioTrack
  defaultTextTrack :: "textTrack option"
  defaultBufferSize :: jsnum
  defaultBufferThreshold :: jsnum
  initialVideoBitrate :: jsnum
  initialAudioBitrate :: jsnum
  maxVideoBitrate :: jsnum
  maxAudioBitrate :: jsnum
  limitVideoWidth :: bool
  throttleWhenHidden :: bool

text \<open>
  An \<open>options\<close> record is the result of \<open>Object.assign({}, DEFAULTS, options)\<close>: the
  options of the caller over the defaults.  The two policy flags are absent from
  \<open>DEFAULTS\<close>, hence falsy.
\<close>

definition DEFAULTS :: options where
  "DEFAULTS = \<lparr>
     defaultAudioTrack = AudioTrack ''fra'' False,
     defaultTextTrack = None,
     defaultBufferSize = Fin 30,
     defaultBufferThreshold = Fin (3 / 10),
     initialVideoBitrate = Fin 0,
     initialAudioBitrate = Fin 0,
     maxVideoBitrate = PInf,
     maxAudioBitrate = PInf,
     limitVideoWidth = False,
     throttleWhenHidden = False \<rparr>"

text \<open>The current value of every BehaviorSubject the engine owns.\<close>

record engine =
  languages :: audioTrack
  subtitles :: "textTrack option"
  averageBitrates_audio :: jsnum
  averageBitrates_video :: jsnum
  usrBitrates_audio :: jsnum
  usrBitrates_video :: jsnum
  maxBitrates_audio :: jsnum
  maxBitrates_video :: jsnum
  bufSizes_audio :: jsnum
  bufSizes_video :: jsnum
  bufSizes_text :: jsnum

definition newEngine :: "options \<Rightarrow> engine" where
  "newEngine opts = \<lparr>
     languages = defaultAudioTrack opts,
     subtitles = defaultTextTrack opts,
     averageBitrates_audio = initialAudioBitrate opts,
     averageBitrates_video = initialVideoBitrate opts,
     usrBitrates_audio = PInf,
     usrBitrates_video = PInf,
     maxBitrates_audio = maxAudioBitrate opts,
     maxBitrates_video = maxVideoBitrate opts,
     bufSizes_audio = defaultBufferSize opts,
     bufSizes_video = defaultBufferSize opts,
     bufSizes_text = defaultBufferSize opts \<rparr>"

definition setAudioTrack :: "audioTrack \<Rightarrow> engine \<Rightarrow> engine" where
  "setAudioTrack track e = e\<lparr>languages := track\<rparr>"

definition setTextTrack :: "textTrack option \<Rightarrow> engine \<Rightarrow> engine" where
  "setTextTrack track e = e\<lparr>subtitles := track\<rparr>"

definition setAudioBitrate :: "jsinput \<Rightarrow> engine \<Rightarrow> engine" where
  "setAudioBitrate x e = e\<lparr>usrBitrates_audio := def x PInf\<rparr>"

definition setVideoBitrate :: "jsinput \<Rightarrow> engine \<Rightarrow> engine" where
  "setVideoBitrate x e = e\<lparr>usrBitrates_video := def x PInf\<rparr>"

definition setAudioMaxBitrate :: "jsinput \<Rightarrow> engine \<Rightarrow> engine" where
  "setAudioMaxBitrate x e = e\<lparr>maxBitrates_audio := def x PInf\<rparr>"

definition setVideoMaxBitrate :: "jsinput \<Rightarrow> engine \<Rightarrow> engine" where
  "setVideoMaxBitrate x e = e\<lparr>maxBitrates_video := def x PInf\<rparr>"

definition setAudioBufferSize :: "options \<Rightarrow> jsinput \<Rightarrow> engine \<Rightarrow> engine" where
  "setAudioBufferSize opts x e = e\<lparr>bufSizes_audio := def x (defaultBufferSize opts)\<rparr>"

definition setVideoBufferSize :: "options \<Rightarrow> jsinput \<Rightarrow> engine \<Rightarrow> engine" where
  "setVideoBufferSize opts x e = e\<lparr>bufSizes_video := def x (defaultBufferSize opts)\<rparr>"

text \<open>
  Whether a setter argument is a number strictly greater than 0, in the words of the
  setters' contract.
\<close>

definition positiveNumber :: "jsinput \<Rightarrow> bool" where
  "positiveNumber x = (case x of InNumber n \<Rightarrow> js_lt (Fin 0) n | _ \<Rightarrow> False)"

definition numberOf :: "jsinput \<Rightarrow> jsnum" where
  "numberOf x = (case x of InNumber n \<Rightarrow> n | _ \<Rightarrow> NaN)"

section \<open>Representation resolver\<close>

text \<open>
  Modelled from the spec: the Adaptation class and its method \<open>getAvailableBitrates\<close>
  are not among the sources; the data model describes the method as yielding the list
  of distinct available bitrates, sorted ascending.
\<close>

definition getAvailableBitrates :: "adaptation \<Rightarrow> real list" where
  "getAvailableBitrates a = sort (remdups (map bitrate (representations a)))"

text \<open>
  The function handed to \<open>combineLatest(usrBitrates, maxBitrates, avrBitrates, ...)\<close>.
  \<open>maxBtr\<close> and \<open>avr\<close> may be values other than numbers (see \<open>videoMaxBitrates\<close> and
  \<open>getClosestBitrate\<close>); comparison, \<open>Math.min\<close> and the division inside
  \<open>getClosestBitrate\<close> convert them to numbers.  \<open>None\<close> is the \<open>null\<close> of \<open>find\<close>.
\<close>

definition pickRepresentation ::
    "representation list \<Rightarrow> real list \<Rightarrow> jsnum \<Rightarrow> jsval \<Rightarrow> jsval \<Rightarrow> representation option" where
  "pickRepresentation reps bitrates usr maxBtr avr =
     (let btr = (if js_lt usr PInf then usr
                 else if js_lt (toNumber maxBtr) PInf
                      then math_min (toNumber maxBtr) (toNumber avr)
                 else toNumber avr)
      in find_js reps (\<lambda>rep. Num (Fin (bitrate rep)) = getClosestBitrate bitrates btr (Fin 0)))"

text \<open>
  The target bitrate in the words of the combination rule: the user's bitrate when it is
  finite, else the lower of bound and estimate when the bound is finite, else the
  estimate.
\<close>

definition finite_num :: "jsnum \<Rightarrow> bool" where
  "finite_num n = (case n of Fin _ \<Rightarrow> True | _ \<Rightarrow> False)"

definition targetBitrate_spec :: "jsnum \<Rightarrow> jsnum \<Rightarrow> jsnum \<Rightarrow> jsnum" where
  "targetBitrate_spec usr maxBtr avr =
     (if finite_num usr then usr
      else if finite_num maxBtr then math_min maxBtr avr
      else avr)"

text \<open>
  The upper bound for video, mapped over the latest user maximum, video width and
  visibility.  The call to \<open>getMaxUsefulBitrateforWidth\<close> works on the Adaptation's own
  array, so the array comes back with the bound.
\<close>

definition videoMaxBitrates ::
    "options \<Rightarrow> real list \<Rightarrow> representation list \<Rightarrow> jsnum \<Rightarrow> jsnum \<Rightarrow> bool
       \<Rightarrow> jsval \<times> representation list" where
  "videoMaxBitrates opts bitrates reps maxSetBitrate w isHidden =
     (if throttleWhenHidden opts \<and> isHidden then (at_bitrates bitrates 0, reps)
      else (let (maxUsableBitrate, reps') =
                  (if limitVideoWidth opts then getMaxUsefulBitrateforWidth reps w
                   else (at_bitrates bitrates (length bitrates - 1), reps))
            in (Num (math_min (toNumber maxUsableBitrate) maxSetBitrate), reps')))"

text \<open>
  One subscription to the \<open>representations\<close> stream of an Adaptation.  It keeps the
  latest value of every input of the two \<open>combineLatest\<close>, the Adaptation's array of
  Representations as it currently is, the key of
  \<open>distinctUntilChanged((a, b) => a.id === b.id)\<close>, and whether the stream has ended.
  \<open>c_evals\<close> counts the evaluations of \<open>pickRepresentation\<close>.
\<close>

datatype notification = Next "representation option" | Error

datatype event =
  UsrBitrate jsnum | MaxBitrate jsnum | VideoWidth jsnum | InBackground bool | AvrBitrate jsval

record consumer =
  c_type :: mediaType
  c_usr :: jsnum
  c_maxSet :: jsnum
  c_width :: jsnum
  c_hidden :: bool
  c_max :: jsval
  c_avr :: jsval
  c_reps :: "representation list"
  c_key :: "representation option"
  c_closed :: bool
  c_evals :: nat

text \<open>Reading \<open>.id\<close> of \<open>null\<close> throws; the stream then ends with an error.\<close>

definition distinctById :: "consumer \<Rightarrow> representation option \<Rightarrow> consumer \<times> notification list" where
  "distinctById cs v =
     (case (c_key cs, v) of
        (Some a, Some b) \<Rightarrow>
          (if rep_id a = rep_id b then (cs, []) else (cs\<lparr>c_key := v\<rparr>, [Next v]))
      | _ \<Rightarrow> (cs\<lparr>c_closed := True\<rparr>, [Error]))"

definition recompute :: "real list \<Rightarrow> consumer \<Rightarrow> consumer \<times> notification list" where
  "recompute bitrates cs =
     distinctById (cs\<lparr>c_evals := c_evals cs + 1\<rparr>)
       (pickRepresentation (c_reps cs) bitrates (c_usr cs) (c_max cs) (c_avr cs))"

definition refreshMax :: "options \<Rightarrow> real list \<Rightarrow> consumer \<Rightarrow> consumer" where
  "refreshMax opts bitrates cs =
     (if c_type cs = Video
      then (let (m, reps') = videoMaxBitrates opts bitrates (c_reps cs)
                               (c_maxSet cs) (c_width cs) (c_hidden cs)
            in cs\<lparr>c_max := m, c_reps := reps'\<rparr>)
      else cs\<lparr>c_max := Num (c_maxSet cs)\<rparr>)"

definition onEvent ::
    "options \<Rightarrow> real list \<Rightarrow> event \<Rightarrow> consumer \<Rightarrow> consumer \<times> notification list" where
  "onEvent opts bitrates ev cs =
     (if c_closed cs then (cs, [])
      else case ev of
        UsrBitrate v \<Rightarrow> recompute bitrates (cs\<lparr>c_usr := v\<rparr>)
      | AvrBitrate v \<Rightarrow> recompute bitrates (cs\<lparr>c_avr := v\<rparr>)
      | MaxBitrate v \<Rightarrow> recompute bitrates (refreshMax opts bitrates (cs\<lparr>c_maxSet := v\<rparr>))
      | VideoWidth w \<Rightarrow>
          (if c_type cs = Video
           then recompute bitrates (refreshMax opts bitrates (cs\<lparr>c_width := w\<rparr>))
           else (cs, []))
      | InBackground h \<Rightarrow>
          (if c_type cs = Video
           then recompute bitrates (refreshMax opts bitrates (cs\<lparr>c_hidden := h\<rparr>))
           else (cs, [])))"

text \<open>The pick for the current inputs of a subscription.\<close>

definition picked :: "real list \<Rightarrow> consumer \<Rightarrow> representation option" where
  "picked bs cs = pickRepresentation (c_reps cs) bs (c_usr cs) (c_max cs) (c_avr cs)"

text \<open>
  Subscribing: every input replays its current value, \<open>avrBitrates\<close> starts with
  \<open>getClosestBitrate(bitrates, $averageBitrates[type].getValue(), 0)\<close>, and the first
  pick is emitted.
\<close>

definition startConsumer ::
    "options \<Rightarrow> real list \<Rightarrow> mediaType \<Rightarrow> representation list \<Rightarrow> jsnum \<Rightarrow> jsnum \<Rightarrow> jsnum
       \<Rightarrow> bool \<Rightarrow> jsnum \<Rightarrow> consumer \<times> notification list" where
  "startConsumer opts bitrates ty reps usr maxSet w isHidden avrValue =
     (let cs0 = \<lparr> c_type = ty, c_usr = usr, c_maxSet = maxSet, c_width = w,
                  c_hidden = isHidden, c_max = Undefined,
                  c_avr = getClosestBitrate bitrates avrValue (Fin 0),
                  c_reps = reps, c_key = None, c_closed = False, c_evals = 0 \<rparr>;
          cs1 = refreshMax opts bitrates cs0;
          first = pickRepresentation (c_reps cs1) bitrates (c_usr cs1) (c_max cs1) (c_avr cs1)
      in (cs1\<lparr>c_key := first, c_evals := 1\<rparr>, [Next first]))"

text \<open>\<open>only(representations[0])\<close>: one value, then the stream is over.\<close>

definition onlyFirst :: "mediaType \<Rightarrow> representation list \<Rightarrow> consumer \<times> notification list" where
  "onlyFirst ty reps =
     (let first = (case reps of r # _ \<Rightarrow> Some r | [] \<Rightarrow> None)
      in (\<lparr> c_type = ty, c_usr = PInf, c_maxSet = PInf, c_width = NaN, c_hidden = False,
            c_max = Undefined, c_avr = Undefined, c_reps = reps, c_key = first,
            c_closed = True, c_evals = 0 \<rparr>, [Next first]))"

text \<open>
  \<open>getBufferAdapters(adaptation)\<close>, with its \<open>representations\<close> stream subscribed.  The
  engine has bitrate cells for audio and video only: with several Representations of
  another type, \<open>$averageBitrates[type].map\<close> is a call on \<open>undefined\<close> and throws.
  \<open>videoWidth\<close> and \<open>inBackground\<close> are the current values of the device streams.  The
  second component is the current value of \<open>bufferSizes\<close>.
\<close>

datatype error = TypeError

definition bufferSizes :: "options \<Rightarrow> engine \<Rightarrow> mediaType \<Rightarrow> jsnum" where
  "bufferSizes opts e ty =
     (case ty of Audio \<Rightarrow> bufSizes_audio e | Video \<Rightarrow> bufSizes_video e
               | Text \<Rightarrow> bufSizes_text e | Other \<Rightarrow> defaultBufferSize opts)"

definition getBufferAdapters ::
    "options \<Rightarrow> engine \<Rightarrow> jsnum \<Rightarrow> bool \<Rightarrow> adaptation
       \<Rightarrow> error + (consumer \<times> notification list) \<times> jsnum" where
  "getBufferAdapters opts e videoWidth inBackground a =
     (let reps = representations a; bitrates = getAvailableBitrates a
      in if length reps > 1
         then (case type a of
                 Audio \<Rightarrow>
                   Inr (startConsumer opts bitrates Audio reps (usrBitrates_audio e)
                          (maxBitrates_audio e) videoWidth inBackground (averageBitrates_audio e),
                        bufferSizes opts e Audio)
               | Video \<Rightarrow>
                   Inr (startConsumer opts bitrates Video reps (usrBitrates_video e)
                          (maxBitrates_video e) videoWidth inBackground (averageBitrates_video e),
                        bufferSizes opts e Video)
               | _ \<Rightarrow> Inl TypeError)
         else Inr (onlyFirst (type a) reps, bufferSizes opts e (type a)))"

text \<open>
  A call of a setter, as seen by one subscription: \<open>next(v)\<close> stores \<open>v\<close> in the cell
  and hands it to the subscribers of that cell.  \<open>callSetter\<close> gives the engine after
  the call, the subscription after it, what the \<open>representations\<close> stream emits and
  what the \<open>bufferSizes\<close> stream of the subscription's type emits.
\<close>

datatype call =
  SetAudioTrack audioTrack | SetTextTrack "textTrack option"
| SetAudioBitrate jsinput | SetVideoBitrate jsinput
| SetAudioMaxBitrate jsinput | SetVideoMaxBitrate jsinput
| SetAudioBufferSize jsinput | SetVideoBufferSize jsinput

fun callSetter ::
    "options \<Rightarrow> real list \<Rightarrow> call \<Rightarrow> engine \<times> consumer
       \<Rightarrow> (engine \<times> consumer) \<times> notification list \<times> jsnum list" where
  "callSetter opts bitrates (SetAudioTrack t) (e, cs) = ((setAudioTrack t e, cs), [], [])"
| "callSetter opts bitrates (SetTextTrack t) (e, cs) = ((setTextTrack t e, cs), [], [])"
| "callSetter opts bitrates (SetAudioBitrate x) (e, cs) =
     (let e' = setAudioBitrate x e
      in if c_type cs = Audio
         then (let (cs', out) = onEvent opts bitrates (UsrBitrate (usrBitrates_audio e')) cs
               in ((e', cs'), out, []))
         else ((e', cs), [], []))"
| "callSetter opts bitrates (SetVideoBitrate x) (e, cs) =
     (let e' = setVideoBitrate x e
      in if c_type cs = Video
         then (let (cs', out) = onEvent opts bitrates (UsrBitrate (usrBitrates_video e')) cs
               in ((e', cs'), out, []))
         else ((e', cs), [], []))"
| "callSetter opts bitrates (SetAudioMaxBitrate x) (e, cs) =
     (let e' = setAudioMaxBitrate x e
      in if c_type cs = Audio
         then (let (cs', out) = onEvent opts bitrates (MaxBitrate (maxBitrates_audio e')) cs
               in ((e', cs'), out, []))
         else ((e', cs), [], []))"
| "callSetter opts bitrates (SetVideoMaxBitrate x) (e, cs) =
     (let e' = setVideoMaxBitrate x e
      in if c_type cs = Video
         then (let (cs', out) = onEvent opts bitrates (MaxBitrate (maxBitrates_video e')) cs
               in ((e', cs'), out, []))
         else ((e', cs), [], []))"
| "callSetter opts bitrates (SetAudioBufferSize x) (e, cs) =
     (let e' = setAudioBufferSize opts x e
      in ((e', cs), [], if c_type cs = Audio then [bufSizes_audio e'] else []))"
| "callSetter opts bitrates (SetVideoBufferSize x) (e, cs) =
     (let e' = setVideoBufferSize opts x e
      in ((e', cs), [], if c_type cs = Video then [bufSizes_video e'] else []))"

text \<open>
  Two calls of the same setter that store the same value: the same track, or arguments
  that \<open>def\<close> normalises to the same number.
\<close>

fun sameNormalized :: "options \<Rightarrow> call \<Rightarrow> call \<Rightarrow> bool" where
  "sameNormalized opts (SetAudioTrack a) (SetAudioTrack b) = (a = b)"
| "sameNormalized opts (SetTextTrack a) (SetTextTrack b) = (a = b)"
| "sameNormalized opts (SetAudioBitrate x) (SetAudioBitrate y) = (def x PInf = def y PInf)"
| "sameNormalized opts (SetVideoBitrate x) (SetVideoBitrate y) = (def x PInf = def y PInf)"
| "sameNormalized opts (SetAudioMaxBitrate x) (SetAudioMaxBitrate y) = (def x PInf = def y PInf)"
| "sameNormalized opts (SetVideoMaxBitrate x) (SetVideoMaxBitrate y) = (def x PInf = def y PInf)"
| "sameNormalized opts (SetAudioBufferSize x) (SetAudioBufferSize y) =
     (def x (defaultBufferSize opts) = def y (defaultBufferSize opts))"
| "sameNormalized opts (SetVideoBufferSize x) (SetVideoBufferSize y) =
     (def x (defaultBufferSize opts) = def y (defaultBufferSize opts))"
| "sameNormalized opts _ _ = False"

section \<open>Example data\<close>

text \<open>
  A video ladder of four Representations (widths 640, 1280, 1920 and 3840 with bitrates
  of 1, 2, 4 and 8 Mbit/s), the same Representations with the two narrowest swapped,
  an audio Adaptation with two Representations, two audio tracks, a text track, and a matcher that looks for the wanted language
  itself.  They are the inputs on which the functions above are run below.
\<close>

definition rep640 :: representation where
  "rep640 = \<lparr>rep_id = ''v640'', bitrate = 1000000, width = 640\<rparr>"
definition rep1280 :: representation where
  "rep1280 = \<lparr>rep_id = ''v1280'', bitrate = 2000000, width = 1280\<rparr>"
definition rep1920 :: representation where
  "rep1920 = \<lparr>rep_id = ''v1920'', bitrate = 4000000, width = 1920\<rparr>"
definition rep3840 :: representation where
  "rep3840 = \<lparr>rep_id = ''v3840'', bitrate = 8000000, width = 3840\<rparr>"
definition exampleVideo :: adaptation where
  "exampleVideo = \<lparr>type = Video, language = '''', isAudioDescription = False,
     isClosedCaption = False, representations = [rep640, rep1280, rep1920, rep3840]\<rparr>"

definition unsortedVideo :: adaptation where
  "unsortedVideo = exampleVideo\<lparr>representations := [rep1280, rep640, rep1920, rep3840]\<rparr>"

definition aud64 :: representation where
  "aud64 = \<lparr>rep_id = ''a64'', bitrate = 64000, width = 0\<rparr>"
definition aud128 :: representation where
  "aud128 = \<lparr>rep_id = ''a128'', bitrate = 128000, width = 0\<rparr>"
definition exampleAudio :: adaptation where
  "exampleAudio = \<lparr>type = Audio, language = ''fra'', isAudioDescription = False,
     isClosedCaption = False, representations = [aud64, aud128]\<rparr>"
text \<open>The subscription to the Representations of \<open>exampleAudio\<close> under the default options.\<close>

definition audioConsumer :: consumer where
  "audioConsumer = fst (startConsumer DEFAULTS [64000, 128000] Audio [aud64, aud128]
                          PInf PInf (Fin 1920) False (Fin 0))"

fun indexOfLanguage :: matcher where
  "indexOfLanguage [] wanted = - 1"
| "indexOfLanguage (l # ls) wanted =
     (if l = wanted then 0
      else (let i = indexOfLanguage ls wanted in if i < 0 then - 1 else i + 1))"

definition audioEng :: adaptation where
  "audioEng = \<lparr>type = Audio, language = ''eng'', isAudioDescription = False,
     isClosedCaption = False, representations = []\<rparr>"
definition audioFra :: adaptation where
  "audioFra = \<lparr>type = Audio, language = ''fra'', isAudioDescription = False,
     isClosedCaption = False, representations = []\<rparr>"
definition textFra :: adaptation where
  "textFra = \<lparr>type = Text, language = ''fra'', isAudioDescription = False,
     isClosedCaption = False, representations = []\<rparr>"

section \<open>Properties of the closest bitrate\<close>

lemma closestLoop_find:
  "n \<le> length bs \<Longrightarrow>
   closestLoop bs t thr n =
     List.find (\<lambda>v. js_le (js_div (Fin v) t) (js_sub (Fin 1) thr)) (rev (take n bs))"
proof (induction n)
  case 0
  then show ?case by simp
next
  case (Suc n)
  then have "take (Suc n) bs = take n bs @ [bs ! n]"
    by (simp add: take_Suc_conv_app_nth)
  with Suc show ?case by simp
qed

lemma getClosestBitrate_refines:
  assumes "bs \<noteq> []" "sorted bs"
  shows "getClosestBitrate bs t thr = Num (Fin (closestBitrate_spec bs t thr))"
proof -
  have "at_bitrates bs 0 = Num (Fin (Min (set bs)))"
    using assms by (cases bs) (auto simp: at_bitrates_def intro!: Min_eqI[symmetric])
  then show ?thesis
    by (simp add: getClosestBitrate_def closestBitrate_spec_def closestLoop_find split: option.splits)
qed

lemma find_rev_sorted_Max:
  "sorted (bs::real list) \<Longrightarrow> List.find P (rev bs) = Some v \<Longrightarrow> Max {b \<in> set bs. P b} = v"
proof (induction bs rule: rev_induct)
  case Nil
  then show ?case by simp
next
  case (snoc x xs)
  show ?case
  proof (cases "P x")
    case True
    with snoc.prems have "v = x" by simp
    moreover have "\<forall>b \<in> set xs. b \<le> x" using snoc.prems(1) by (simp add: sorted_append)
    ultimately show ?thesis using True by (auto intro!: Max_eqI)
  next
    case False
    with snoc.prems have f: "List.find P (rev xs) = Some v" by simp
    have s: "sorted xs" using snoc.prems(1) by (simp add: sorted_append)
    have "{b \<in> set (xs @ [x]). P b} = {b \<in> set xs. P b}" using False by auto
    with snoc.IH[OF s f] show ?thesis by simp
  qed
qed

lemma qualifies_zero_threshold:
  assumes "0 \<le> v" and "t = PInf \<or> (\<exists>x. 0 < x \<and> t = Fin x)"
  shows "js_le (js_div (Fin v) t) (js_sub (Fin 1) (Fin 0)) = js_le (Fin v) t"
  using assms by (auto simp: divide_le_eq)

lemma Min_mem: "bs \<noteq> [] \<Longrightarrow> Min (set bs) \<in> set (bs::real list)"
  by (simp add: Min_in)

lemma closest_zero_at_or_above:
  assumes ne: "bs \<noteq> []" and so: "sorted bs" and nn: "\<forall>b\<in>set bs. 0 \<le> b"
    and ge: "js_le (Fin (Min (set bs))) t"
  shows "closestBitrate_spec bs t (Fin 0) = Max {b \<in> set bs. js_le (Fin b) t}"
proof (cases "t = Fin 0")
  case True
  have m0: "Min (set bs) = 0"
  proof -
    have "Min (set bs) \<le> 0" using ge True by simp
    moreover have "0 \<le> Min (set bs)" using nn Min_mem[OF ne] by blast
    ultimately show ?thesis by simp
  qed
  have none: "List.find (\<lambda>v. js_le (js_div (Fin v) t) (js_sub (Fin 1) (Fin 0))) (rev bs) = None"
    using nn True by (auto simp: find_None_iff)
  have "Max {b \<in> set bs. js_le (Fin b) t} = 0"
  proof (rule Max_eqI)
    show "finite {b \<in> set bs. js_le (Fin b) t}" by simp
    show "\<And>y. y \<in> {b \<in> set bs. js_le (Fin b) t} \<Longrightarrow> y \<le> 0" using True by simp
    show "0 \<in> {b \<in> set bs. js_le (Fin b) t}" using Min_mem[OF ne] m0 True by simp
  qed
  with none m0 show ?thesis by (simp add: closestBitrate_spec_def)
next
  case False
  have pos: "t = PInf \<or> (\<exists>x. 0 < x \<and> t = Fin x)"
  proof (cases t)
    case (Fin x)
    have "0 \<le> Min (set bs)" using nn Min_mem[OF ne] by blast
    moreover have "Min (set bs) \<le> x" using ge Fin by simp
    ultimately have "0 < x" using False Fin by (cases "x = 0") auto
    with Fin show ?thesis by simp
  qed (use ge in auto)
  have eq: "List.find (\<lambda>v. js_le (js_div (Fin v) t) (js_sub (Fin 1) (Fin 0))) (rev bs)
        = List.find (\<lambda>v. js_le (Fin v) t) (rev bs)"
    by (rule find_cong) (use nn pos in \<open>auto simp: qualifies_zero_threshold\<close>)
  have "List.find (\<lambda>v. js_le (Fin v) t) (rev bs) \<noteq> None"
    using ge Min_mem[OF ne] by (auto simp: find_None_iff)
  then obtain v where v: "List.find (\<lambda>v. js_le (Fin v) t) (rev bs) = Some v" by blast
  from find_rev_sorted_Max[OF so v] eq v show ?thesis
    by (simp add: closestBitrate_spec_def)
qed

lemma closest_zero_below:
  assumes ne: "bs \<noteq> []" and nn: "\<forall>b\<in>set bs. 0 \<le> b"
    and t0: "js_le (Fin 0) t" and lt: "js_lt t (Fin (Min (set bs)))"
  shows "closestBitrate_spec bs t (Fin 0) = Min (set bs)"
proof -
  obtain x where x: "t = Fin x" "0 \<le> x" "x < Min (set bs)"
    using t0 lt by (cases t) auto
  have "\<not> js_le (js_div (Fin v) t) (js_sub (Fin 1) (Fin 0))" if "v \<in> set bs" for v
  proof -
    have "Min (set bs) \<le> v" using that by simp
    with x(3) have "x < v" by simp
    then show ?thesis using x by (auto simp: divide_le_eq)
  qed
  then have "List.find (\<lambda>v. js_le (js_div (Fin v) t) (js_sub (Fin 1) (Fin 0))) (rev bs) = None"
    by (auto simp: find_None_iff)
  then show ?thesis by (simp add: closestBitrate_spec_def)
qed

text \<open>
  Claim C3.  For a non-empty ascending list of bitrates (bitrates are not negative),
  every target and every threshold, \<open>getClosestBitrate\<close> returns the first value
  \<open>v\<close>, scanning from the highest to the lowest, with \<open>v / target \<le> 1 - threshold\<close>,
  and the lowest value of the list when no value qualifies.  So with threshold 0 and a
  target at or above the lowest value it returns the largest value of the list that is
  at most the target, and with a target bitrate below the lowest value it returns the
  lowest value.
\<close>

theorem getClosestBitrate_scan:
  assumes "bitrates \<noteq> []" and "sorted bitrates"
  shows "getClosestBitrate bitrates target threshold
           = Num (Fin (closestBitrate_spec bitrates target threshold))
       \<and> ((\<forall>b\<in>set bitrates. 0 \<le> b) \<and> js_le (Fin (Min (set bitrates))) target \<longrightarrow>
            getClosestBitrate bitrates target (Fin 0)
              = Num (Fin (Max {b \<in> set bitrates. js_le (Fin b) target})))
       \<and> ((\<forall>b\<in>set bitrates. 0 \<le> b) \<and> js_le (Fin 0) target
              \<and> js_lt target (Fin (Min (set bitrates))) \<longrightarrow>
            getClosestBitrate bitrates target (Fin 0) = Num (Fin (Min (set bitrates))))"
  using assms
  by (simp add: getClosestBitrate_refines closest_zero_at_or_above closest_zero_below)

theorem getClosestBitrate_scan_witness:
  "getClosestBitrate [300, 750, 1500, 3000] (Fin 1000) (Fin 0) = Num (Fin 750)
   \<and> getClosestBitrate [300, 750, 1500, 3000] (Fin 100) (Fin 0) = Num (Fin 300)"
proof -
  have h: "[300, 750, 1500, 3000::real] \<noteq> []" "sorted [300, 750, 1500, 3000::real]"
    by simp_all
  have nn: "\<forall>b\<in>set [300, 750, 1500, 3000::real]. 0 \<le> b"
    by simp
  have "{b \<in> set [300, 750, 1500, 3000::real]. js_le (Fin b) (Fin 1000)} = {300, 750}"
    by auto
  then have m: "Max {b \<in> set [300, 750, 1500, 3000::real]. js_le (Fin b) (Fin 1000)} = 750"
    by (rule ssubst) simp
  have a: "getClosestBitrate [300, 750, 1500, 3000] (Fin 1000) (Fin 0) = Num (Fin 750)"
    using getClosestBitrate_scan[OF h, of "Fin 1000" "Fin 0", THEN conjunct2, THEN conjunct1]
      nn m
    by simp
  have b: "getClosestBitrate [300, 750, 1500, 3000] (Fin 100) (Fin 0) = Num (Fin 300)"
    using getClosestBitrate_scan[OF h, of "Fin 100" "Fin 0", THEN conjunct2, THEN conjunct2] nn
    by simp
  from a b show ?thesis by simp
qed

section \<open>The first pick\<close>

lemma find_js_Some_mem: "find_js xs P = Some x \<Longrightarrow> x \<in> set xs \<and> P x"
  by (induction xs) (auto split: if_splits)

lemma find_js_exists: "\<exists>x\<in>set xs. P x \<Longrightarrow> \<exists>y. find_js xs P = Some y"
  by (induction xs) auto

lemma closest_of_lowest:
  assumes ne: "bs \<noteq> []" and so: "sorted bs" and nn: "\<forall>b\<in>set bs. 0 \<le> b"
  shows "getClosestBitrate bs (Fin (Min (set bs))) (Fin 0) = Num (Fin (Min (set bs)))"
proof -
  have "Max {b \<in> set bs. js_le (Fin b) (Fin (Min (set bs)))} = Min (set bs)"
    by (rule Max_eqI) (use Min_mem[OF ne] in auto)
  moreover have "js_le (Fin (Min (set bs))) (Fin (Min (set bs)))" by simp
  ultimately show ?thesis
    using closest_zero_at_or_above[OF ne so nn, of "Fin (Min (set bs))"]
    by (simp add: getClosestBitrate_refines[OF ne so])
qed

lemma closest_of_zero:
  assumes ne: "bs \<noteq> []" and so: "sorted bs" and pos: "\<forall>b\<in>set bs. 0 < b"
    and r: "r < 1"
  shows "getClosestBitrate bs (Fin 0) (Fin r) = Num (Fin (Min (set bs)))"
proof -
  have "List.find (\<lambda>v. js_le (js_div (Fin v) (Fin 0)) (js_sub (Fin 1) (Fin r))) (rev bs) = None"
    using pos r by (auto simp: find_None_iff)
  then show ?thesis
    by (simp add: getClosestBitrate_refines[OF ne so] closestBitrate_spec_def)
qed

lemma availableBitrates_set: "set (getAvailableBitrates a) = bitrate ` set (representations a)"
  by (simp add: getAvailableBitrates_def)

lemma availableBitrates_sorted: "sorted (getAvailableBitrates a)"
  by (simp add: getAvailableBitrates_def)

lemma availableBitrates_nonempty: "representations a \<noteq> [] \<Longrightarrow> getAvailableBitrates a \<noteq> []"
  using availableBitrates_set[of a] by (metis image_is_empty set_empty)

lemma last_ge_Min: "bs \<noteq> [] \<Longrightarrow> Min (set bs) \<le> last (bs::real list)"
  by simp

lemma pick_unbounded:
  "pickRepresentation reps bs PInf (Num PInf) (Num (Fin v))
     = find_js reps (\<lambda>rep. Num (Fin (bitrate rep)) = getClosestBitrate bs (Fin v) (Fin 0))"
  by (simp add: pickRepresentation_def)

lemma pick_top_bound:
  assumes "v \<le> t"
  shows "pickRepresentation reps bs PInf (Num (Fin t)) (Num (Fin v))
     = find_js reps (\<lambda>rep. Num (Fin (bitrate rep)) = getClosestBitrate bs (Fin v) (Fin 0))"
  using assms by (simp add: pickRepresentation_def)

lemma initial_pick_default:
  assumes ty: "type a = Audio \<or> type a = Video"
    and len: "length (representations a) > 1"
    and pos: "\<forall>rep\<in>set (representations a). 0 < bitrate rep"
  shows "\<exists>cs rep. getBufferAdapters DEFAULTS (newEngine DEFAULTS) w h a
                     = Inr ((cs, [Next (Some rep)]), Fin 30)
               \<and> rep \<in> set (representations a)
               \<and> bitrate rep = Min (bitrate ` set (representations a))"
proof -
  let ?bs = "getAvailableBitrates a"
  let ?lo = "Min (set ?bs)"
  have rne: "representations a \<noteq> []" using len by auto
  have ne: "?bs \<noteq> []" by (rule availableBitrates_nonempty[OF rne])
  have so: "sorted ?bs" by (rule availableBitrates_sorted)
  have pos': "\<forall>b\<in>set ?bs. 0 < b" using pos by (auto simp: availableBitrates_set)
  then have nn: "\<forall>b\<in>set ?bs. 0 \<le> b" by (auto intro: less_imp_le)
  have seed: "getClosestBitrate ?bs (Fin 0) (Fin 0) = Num (Fin ?lo)"
    by (rule closest_of_zero[OF ne so pos']) simp
  have again: "getClosestBitrate ?bs (Fin ?lo) (Fin 0) = Num (Fin ?lo)"
    by (rule closest_of_lowest[OF ne so nn])
  have "?lo \<in> bitrate ` set (representations a)"
    using Min_mem[OF ne] by (simp add: availableBitrates_set)
  then have "\<exists>x\<in>set (representations a). Num (Fin (bitrate x)) = Num (Fin ?lo)" by auto
  from find_js_exists[OF this] obtain rep where
    f: "find_js (representations a) (\<lambda>rep. Num (Fin (bitrate rep)) = Num (Fin ?lo)) = Some rep"
    by blast
  from find_js_Some_mem[OF f] have mem: "rep \<in> set (representations a)" "bitrate rep = ?lo"
    by auto
  have top: "at_bitrates ?bs (length ?bs - 1) = Num (Fin (last ?bs))"
    using ne by (simp add: at_bitrates_def last_conv_nth)
  have le: "?lo \<le> last ?bs" by (rule last_ge_Min[OF ne])
  from ty show ?thesis
  proof
    assume "type a = Audio"
    then have "getBufferAdapters DEFAULTS (newEngine DEFAULTS) w h a
        = Inr ((fst (startConsumer DEFAULTS ?bs Audio (representations a) PInf PInf w h (Fin 0)),
                [Next (Some rep)]), Fin 30)"
      using len f seed again
      by (simp add: getBufferAdapters_def startConsumer_def refreshMax_def Let_def
          pick_unbounded newEngine_def DEFAULTS_def bufferSizes_def)
    with mem show ?thesis by (auto simp: availableBitrates_set)
  next
    assume "type a = Video"
    then have "getBufferAdapters DEFAULTS (newEngine DEFAULTS) w h a
        = Inr ((fst (startConsumer DEFAULTS ?bs Video (representations a) PInf PInf w h (Fin 0)),
                [Next (Some rep)]), Fin 30)"
      using len f seed again top le
      by (simp add: getBufferAdapters_def startConsumer_def refreshMax_def Let_def
          videoMaxBitrates_def pick_top_bound newEngine_def DEFAULTS_def bufferSizes_def)
    with mem show ?thesis by (auto simp: availableBitrates_set)
  qed
qed

text \<open>
  Claim C10.  For a non-empty ladder of strictly positive bitrates and a threshold in
  \<open>[0, 1)\<close>, \<open>getClosestBitrate(ladder, 0, threshold)\<close> is the lowest value of the
  ladder: no \<open>v / 0\<close> is at most \<open>1 - threshold\<close>.  The default configuration seeds
  both estimates with 0, so the first Representation emitted for an audio or video
  Adaptation with several Representations has the lowest bitrate of the Adaptation.
\<close>

theorem zero_estimate_picks_lowest:
  "(bitrates \<noteq> [] \<and> sorted bitrates \<and> (\<forall>b\<in>set bitrates. 0 < b) \<and> 0 \<le> r \<and> r < 1 \<longrightarrow>
      getClosestBitrate bitrates (Fin 0) (Fin r) = Num (Fin (Min (set bitrates))))
   \<and> initialAudioBitrate DEFAULTS = Fin 0 \<and> initialVideoBitrate DEFAULTS = Fin 0
   \<and> ((type a = Audio \<or> type a = Video) \<and> length (representations a) > 1
        \<and> (\<forall>rep\<in>set (representations a). 0 < bitrate rep) \<longrightarrow>
      (\<exists>cs rep. getBufferAdapters DEFAULTS (newEngine DEFAULTS) w h a
                   = Inr ((cs, [Next (Some rep)]), Fin 30)
               \<and> rep \<in> set (representations a)
               \<and> bitrate rep = Min (bitrate ` set (representations a))))"
  using closest_of_zero[of bitrates r] initial_pick_default[of a w h]
  by (simp add: DEFAULTS_def)

theorem zero_estimate_picks_lowest_witness:
  "getClosestBitrate [300, 750, 1500, 3000] (Fin 0) (Fin (3 / 10)) = Num (Fin 300)
   \<and> (\<exists>cs rep. getBufferAdapters DEFAULTS (newEngine DEFAULTS) (Fin 1920) False exampleVideo
                   = Inr ((cs, [Next (Some rep)]), Fin 30)
               \<and> rep \<in> set (representations exampleVideo)
               \<and> bitrate rep = 1000000)"
proof -
  have h1: "[300, 750, 1500, 3000::real] \<noteq> [] \<and> sorted [300, 750, 1500, 3000::real]
      \<and> (\<forall>b\<in>set [300, 750, 1500, 3000::real]. 0 < b) \<and> (0::real) \<le> 3 / 10 \<and> (3::real) / 10 < 1"
    by simp
  have h2: "(type exampleVideo = Audio \<or> type exampleVideo = Video)
      \<and> length (representations exampleVideo) > 1
      \<and> (\<forall>rep\<in>set (representations exampleVideo). 0 < bitrate rep)"
    by (simp add: exampleVideo_def rep640_def rep1280_def rep1920_def rep3840_def)
  have m: "Min (bitrate ` set (representations exampleVideo)) = 1000000"
    by (simp add: exampleVideo_def rep640_def rep1280_def rep1920_def rep3840_def)
  note T = zero_estimate_picks_lowest[of "[300, 750, 1500, 3000]" "3 / 10" exampleVideo "Fin 1920" False]
  have a: "getClosestBitrate [300, 750, 1500, 3000] (Fin 0) (Fin (3 / 10)) = Num (Fin 300)"
    using T[THEN conjunct1] h1 by simp
  have b: "\<exists>cs rep. getBufferAdapters DEFAULTS (newEngine DEFAULTS) (Fin 1920) False exampleVideo
                   = Inr ((cs, [Next (Some rep)]), Fin 30)
               \<and> rep \<in> set (representations exampleVideo)
               \<and> bitrate rep = 1000000"
    using T[THEN conjunct2, THEN conjunct2, THEN conjunct2] h2 m by simp
  from a b show ?thesis by simp
qed

section \<open>The target bitrate\<close>

lemma js_lt_PInf: "js_lt n PInf = (n = NInf \<or> finite_num n)"
  by (cases n) (simp_all add: finite_num_def)

lemma key_after_recompute:
  assumes "\<not> c_closed (fst (recompute bitrates cs))"
  shows "map_option rep_id (c_key (fst (recompute bitrates cs)))
           = map_option rep_id
               (pickRepresentation (c_reps cs) bitrates (c_usr cs) (c_max cs) (c_avr cs))"
  using assms
  by (auto simp: recompute_def distinctById_def split: option.splits if_splits)

text \<open>
  Claim C2.  For every user bitrate, upper bound and estimate (a bitrate or a bound is
  never \<open>-Infinity\<close>), the resolver takes as target the user bitrate when it is finite,
  else the lower of bound and estimate when the bound is finite, else the estimate;
  it picks the first Representation whose bitrate is \<open>getClosestBitrate\<close> of the ladder
  and that target with threshold 0, and after every recomputation the Representation
  last emitted has the identifier of that pick.  So with a finite user bitrate the pick
  is decided by the user bitrate alone, whatever the bound and the estimate.
\<close>

theorem pickRepresentation_target:
  assumes "usr \<noteq> NInf" and "toNumber maxBtr \<noteq> NInf"
  shows "pickRepresentation reps bitrates usr maxBtr avr
           = find_js reps (\<lambda>rep. Num (Fin (bitrate rep))
               = getClosestBitrate bitrates
                   (targetBitrate_spec usr (toNumber maxBtr) (toNumber avr)) (Fin 0))
       \<and> (finite_num usr \<longrightarrow>
            pickRepresentation reps bitrates usr maxBtr avr
              = find_js reps (\<lambda>rep. Num (Fin (bitrate rep))
                  = getClosestBitrate bitrates usr (Fin 0)))
       \<and> (\<forall>rep. pickRepresentation reps bitrates usr maxBtr avr = Some rep \<longrightarrow>
            rep \<in> set reps
            \<and> Num (Fin (bitrate rep))
                = getClosestBitrate bitrates
                    (targetBitrate_spec usr (toNumber maxBtr) (toNumber avr)) (Fin 0))
       \<and> (\<forall>cs. c_reps cs = reps \<and> c_usr cs = usr \<and> c_max cs = maxBtr \<and> c_avr cs = avr
                 \<and> \<not> c_closed (fst (recompute bitrates cs)) \<longrightarrow>
              map_option rep_id (c_key (fst (recompute bitrates cs)))
                = map_option rep_id (pickRepresentation reps bitrates usr maxBtr avr))"
proof -
  have t: "(if js_lt usr PInf then usr
            else if js_lt (toNumber maxBtr) PInf
                 then math_min (toNumber maxBtr) (toNumber avr)
            else toNumber avr)
           = targetBitrate_spec usr (toNumber maxBtr) (toNumber avr)"
    using assms by (simp add: js_lt_PInf targetBitrate_spec_def)
  have eq: "pickRepresentation reps bitrates usr maxBtr avr
           = find_js reps (\<lambda>rep. Num (Fin (bitrate rep))
               = getClosestBitrate bitrates
                   (targetBitrate_spec usr (toNumber maxBtr) (toNumber avr)) (Fin 0))"
    unfolding pickRepresentation_def Let_def t ..
  have fin: "finite_num usr \<Longrightarrow> targetBitrate_spec usr (toNumber maxBtr) (toNumber avr) = usr"
    by (simp add: targetBitrate_spec_def)
  have pinned: "finite_num usr \<longrightarrow>
            pickRepresentation reps bitrates usr maxBtr avr
              = find_js reps (\<lambda>rep. Num (Fin (bitrate rep))
                  = getClosestBitrate bitrates usr (Fin 0))"
    using eq fin by simp
  have member: "\<forall>rep. pickRepresentation reps bitrates usr maxBtr avr = Some rep \<longrightarrow>
            rep \<in> set reps
            \<and> Num (Fin (bitrate rep))
                = getClosestBitrate bitrates
                    (targetBitrate_spec usr (toNumber maxBtr) (toNumber avr)) (Fin 0)"
  proof (intro allI impI)
    fix rep
    assume "pickRepresentation reps bitrates usr maxBtr avr = Some rep"
    with eq have "find_js reps (\<lambda>rep. Num (Fin (bitrate rep))
               = getClosestBitrate bitrates
                   (targetBitrate_spec usr (toNumber maxBtr) (toNumber avr)) (Fin 0)) = Some rep"
      by simp
    from find_js_Some_mem[OF this]
    show "rep \<in> set reps
            \<and> Num (Fin (bitrate rep))
                = getClosestBitrate bitrates
                    (targetBitrate_spec usr (toNumber maxBtr) (toNumber avr)) (Fin 0)"
      by simp
  qed
  have emitted: "\<forall>cs. c_reps cs = reps \<and> c_usr cs = usr \<and> c_max cs = maxBtr \<and> c_avr cs = avr
                 \<and> \<not> c_closed (fst (recompute bitrates cs)) \<longrightarrow>
              map_option rep_id (c_key (fst (recompute bitrates cs)))
                = map_option rep_id (pickRepresentation reps bitrates usr maxBtr avr)"
    using key_after_recompute[of bitrates] by auto
  show ?thesis by (intro conjI eq pinned member emitted)
qed

theorem pickRepresentation_target_witness:
  "Fin 3000000 \<noteq> NInf \<and> toNumber (Num (Fin 1500000)) \<noteq> NInf \<and> finite_num (Fin 3000000)
   \<and> pickRepresentation (representations exampleVideo) [1000000, 2000000, 4000000, 8000000]
        (Fin 3000000) (Num (Fin 1500000)) (Num (Fin 8000000)) = Some rep1280
   \<and> pickRepresentation (representations exampleVideo) [1000000, 2000000, 4000000, 8000000]
        PInf (Num (Fin 1500000)) (Num (Fin 8000000)) = Some rep640
   \<and> pickRepresentation (representations exampleVideo) [1000000, 2000000, 4000000, 8000000]
        PInf (Num PInf) (Num (Fin 8000000)) = Some rep3840"
proof -
  have h: "Fin 3000000 \<noteq> NInf" "toNumber (Num (Fin 1500000)) \<noteq> NInf" "PInf \<noteq> NInf"
    "toNumber (Num PInf) \<noteq> NInf"
    by simp_all
  have f: "finite_num (Fin 3000000)" by (simp add: finite_num_def)
  have a: "pickRepresentation (representations exampleVideo) [1000000, 2000000, 4000000, 8000000]
        (Fin 3000000) (Num (Fin 1500000)) (Num (Fin 8000000)) = Some rep1280"
    using pickRepresentation_target[OF h(1) h(2), of "representations exampleVideo"
        "[1000000, 2000000, 4000000, 8000000]" "Num (Fin 8000000)",
        THEN conjunct2, THEN conjunct1] f
    by (simp add: getClosestBitrate_def at_bitrates_def exampleVideo_def rep640_def rep1280_def
        rep1920_def rep3840_def)
  have b: "pickRepresentation (representations exampleVideo) [1000000, 2000000, 4000000, 8000000]
        PInf (Num (Fin 1500000)) (Num (Fin 8000000)) = Some rep640"
    using pickRepresentation_target[OF h(3) h(2), of "representations exampleVideo"
        "[1000000, 2000000, 4000000, 8000000]" "Num (Fin 8000000)", THEN conjunct1]
    by (simp add: targetBitrate_spec_def finite_num_def getClosestBitrate_def at_bitrates_def
        exampleVideo_def rep640_def rep1280_def rep1920_def rep3840_def)
  have c: "pickRepresentation (representations exampleVideo) [1000000, 2000000, 4000000, 8000000]
        PInf (Num PInf) (Num (Fin 8000000)) = Some rep3840"
    using pickRepresentation_target[OF h(3) h(4), of "representations exampleVideo"
        "[1000000, 2000000, 4000000, 8000000]" "Num (Fin 8000000)", THEN conjunct1]
    by (simp add: targetBitrate_spec_def finite_num_def getClosestBitrate_def at_bitrates_def
        exampleVideo_def rep640_def rep1280_def rep1920_def rep3840_def)
  from h f a b c show ?thesis by blast
qed

section \<open>The selectors\<close>

lemma firstAdaptation_nonempty: "ads \<noteq> [] \<Longrightarrow> firstAdaptation ads = Adapt (hd ads)"
  by (cases ads) (simp_all add: firstAdaptation_def)

lemma audioChoice_eq:
  "audioChoice m ads p =
     (let filtered = filter (\<lambda>a. isAudioDescription a = audioDescription p) ads;
          i = m (map language filtered) (audioLanguage p)
      in if 0 \<le> i \<and> nat i < length filtered then Adapt (filtered ! nat i)
         else firstAdaptation ads)"
  by (simp add: audioChoice_def findAudioAdaptation_def findAdaptationByLang_def Let_def)

lemma audioChoice_member:
  assumes "ads \<noteq> []"
  shows "\<exists>a\<in>set ads. audioChoice m ads p = Adapt a"
proof -
  let ?f = "filter (\<lambda>a. isAudioDescription a = audioDescription p) ads"
  let ?i = "m (map language ?f) (audioLanguage p)"
  have unfolded: "audioChoice m ads p =
      (if 0 \<le> ?i \<and> nat ?i < length ?f then Adapt (?f ! nat ?i) else firstAdaptation ads)"
    by (simp only: audioChoice_eq Let_def)
  show ?thesis
  proof (cases "0 \<le> ?i \<and> nat ?i < length ?f")
    case True
    from True have "nat ?i < length ?f" by simp
    then have "?f ! nat ?i \<in> set ?f" by (rule nth_mem)
    moreover have "set ?f \<subseteq> set ads" by (rule filter_is_subset)
    ultimately have "?f ! nat ?i \<in> set ads" by (rule subsetD[rotated])
    moreover have "audioChoice m ads p = Adapt (?f ! nat ?i)"
      by (simp only: unfolded if_P[OF True])
    ultimately show ?thesis by blast
  next
    case False
    have "audioChoice m ads p = Adapt (hd ads)"
      by (simp only: unfolded if_not_P[OF False] firstAdaptation_nonempty[OF assms])
    with assms show ?thesis by auto
  qed
qed

text \<open>
  Claim C6.  For every audio preference, the audio selector keeps the candidates whose
  \<open>isAudioDescription\<close> flag equals the flag of the preference, runs the language
  matcher on their languages and emits the Adaptation at the index it returns; when
  the matcher finds nothing it emits the first candidate of the whole list.  When the
  list of candidates is not empty, every value it emits is one of the candidates.
\<close>

theorem audio_selector_choice:
  "audioChoice m ads p =
     (let filtered = filter (\<lambda>a. isAudioDescription a = audioDescription p) ads;
          i = m (map language filtered) (audioLanguage p)
      in if 0 \<le> i \<and> nat i < length filtered then Adapt (filtered ! nat i)
         else firstAdaptation ads)
   \<and> (ads \<noteq> [] \<longrightarrow>
        firstAdaptation ads = Adapt (hd ads)
        \<and> (\<exists>a\<in>set ads. audioChoice m ads p = Adapt a)
        \<and> (\<forall>c\<in>set (audioAdaptationChoice m ads stream). \<exists>a\<in>set ads. c = Adapt a))
   \<and> audioAdaptationChoice m ads [p] = [audioChoice m ads p]"
proof -
  have stream: "\<forall>c\<in>set (audioAdaptationChoice m ads stream). \<exists>a\<in>set ads. c = Adapt a"
    if "ads \<noteq> []"
    using audioChoice_member[OF that, of m] by (auto simp: audioAdaptationChoice_def)
  have nonempty: "ads \<noteq> [] \<longrightarrow>
        firstAdaptation ads = Adapt (hd ads)
        \<and> (\<exists>a\<in>set ads. audioChoice m ads p = Adapt a)
        \<and> (\<forall>c\<in>set (audioAdaptationChoice m ads stream). \<exists>a\<in>set ads. c = Adapt a)"
    using firstAdaptation_nonempty[of ads] audioChoice_member[of ads m p] stream by blast
  have single: "audioAdaptationChoice m ads [p] = [audioChoice m ads p]"
    by (simp add: audioAdaptationChoice_def)
  show ?thesis by (intro conjI audioChoice_eq nonempty single)
qed

theorem audio_selector_choice_witness:
  "audioChoice indexOfLanguage [audioEng, audioFra] (AudioTrack ''fra'' False) = Adapt audioFra
   \<and> audioChoice indexOfLanguage [audioEng, audioFra] (AudioTrack ''deu'' False) = Adapt audioEng
   \<and> [audioEng, audioFra] \<noteq> []
   \<and> (\<exists>a\<in>set [audioEng, audioFra].
         audioChoice indexOfLanguage [audioEng, audioFra] (AudioTrack ''deu'' True) = Adapt a)"
proof -
  note T = audio_selector_choice[of indexOfLanguage "[audioEng, audioFra]" _ "[]"]
  have a: "audioChoice indexOfLanguage [audioEng, audioFra] (AudioTrack ''fra'' False)
             = Adapt audioFra"
    by (subst T[THEN conjunct1]) (simp add: audioEng_def audioFra_def)
  have b: "audioChoice indexOfLanguage [audioEng, audioFra] (AudioTrack ''deu'' False)
             = Adapt audioEng"
    by (subst T[THEN conjunct1]) (simp add: audioEng_def audioFra_def firstAdaptation_def)
  have ne: "[audioEng, audioFra] \<noteq> []" by simp
  from T[of "AudioTrack ''deu'' True", THEN conjunct2, THEN conjunct1] ne
  have c: "\<exists>a\<in>set [audioEng, audioFra].
         audioChoice indexOfLanguage [audioEng, audioFra] (AudioTrack ''deu'' True) = Adapt a"
    by blast
  from a b ne c show ?thesis by blast
qed

text \<open>
  Claim C7.  When the text preference is \<open>null\<close> the text selector emits \<open>null\<close>,
  whatever the candidates.  Otherwise it keeps the candidates whose \<open>isClosedCaption\<close>
  flag equals the flag of the preference, runs the language matcher and emits the
  Adaptation at the index it returns, and \<open>null\<close> when the matcher finds nothing: the
  first candidate is no fallback, and no branch raises.
\<close>

theorem text_selector_choice:
  "textChoice m ads None = Null
   \<and> textChoice m ads (Some p) =
       (let filtered = filter (\<lambda>a. isClosedCaption a = closedCaption p) ads;
            i = m (map language filtered) (textLanguage p)
        in if 0 \<le> i then (if nat i < length filtered then Adapt (filtered ! nat i) else Undef)
           else Null)
   \<and> (m (map language (filter (\<lambda>a. isClosedCaption a = closedCaption p) ads)) (textLanguage p) < 0
        \<longrightarrow> textChoice m ads (Some p) = Null)
   \<and> textAdaptationChoice m ads [None] = [Null]
   \<and> textAdaptationChoice m ads [Some p] = [textChoice m ads (Some p)]"
  by (simp add: textChoice_def findTextAdaptation_def findAdaptationByLang_def Let_def
      textAdaptationChoice_def)

theorem text_selector_choice_witness:
  "indexOfLanguage (map language (filter (\<lambda>a. isClosedCaption a = closedCaption (TextTrack ''deu'' False)) [textFra]))
       (textLanguage (TextTrack ''deu'' False)) < 0
   \<and> textChoice indexOfLanguage [textFra] (Some (TextTrack ''deu'' False)) = Null
   \<and> textChoice indexOfLanguage [textFra] (Some (TextTrack ''fra'' False)) = Adapt textFra"
proof -
  have h: "indexOfLanguage (map language (filter (\<lambda>a. isClosedCaption a = closedCaption (TextTrack ''deu'' False)) [textFra]))
       (textLanguage (TextTrack ''deu'' False)) < 0"
    by (simp add: textFra_def)
  note T = text_selector_choice[of indexOfLanguage "[textFra]"]
  from T[of "TextTrack ''deu'' False", THEN conjunct2, THEN conjunct2, THEN conjunct1] h
  have a: "textChoice indexOfLanguage [textFra] (Some (TextTrack ''deu'' False)) = Null"
    by blast
  have b: "textChoice indexOfLanguage [textFra] (Some (TextTrack ''fra'' False)) = Adapt textFra"
    by (subst T[THEN conjunct2, THEN conjunct1]) (simp add: textFra_def)
  from h a b show ?thesis by blast
qed

section \<open>The setters\<close>

text \<open>
  Claim C8.  For every argument \<open>x\<close>, the four bitrate setters store \<open>x\<close> when it is
  a number strictly greater than 0 and Infinity otherwise, and the two buffer size
  setters store \<open>x\<close> when it is a number strictly greater than 0 and the configured
  default buffer size otherwise.  No setter has a failing branch.
\<close>

theorem setters_normalise:
  "(positiveNumber x \<longrightarrow>
      usrBitrates_audio (setAudioBitrate x e) = numberOf x
    \<and> usrBitrates_video (setVideoBitrate x e) = numberOf x
    \<and> maxBitrates_audio (setAudioMaxBitrate x e) = numberOf x
    \<and> maxBitrates_video (setVideoMaxBitrate x e) = numberOf x
    \<and> bufSizes_audio (setAudioBufferSize opts x e) = numberOf x
    \<and> bufSizes_video (setVideoBufferSize opts x e) = numberOf x)
   \<and> (\<not> positiveNumber x \<longrightarrow>
      usrBitrates_audio (setAudioBitrate x e) = PInf
    \<and> usrBitrates_video (setVideoBitrate x e) = PInf
    \<and> maxBitrates_audio (setAudioMaxBitrate x e) = PInf
    \<and> maxBitrates_video (setVideoMaxBitrate x e) = PInf
    \<and> bufSizes_audio (setAudioBufferSize opts x e) = defaultBufferSize opts
    \<and> bufSizes_video (setVideoBufferSize opts x e) = defaultBufferSize opts)"
  by (cases x)
     (simp_all add: positiveNumber_def numberOf_def def_def js_gt_def setAudioBitrate_def
        setVideoBitrate_def setAudioMaxBitrate_def setVideoMaxBitrate_def
        setAudioBufferSize_def setVideoBufferSize_def)

theorem setters_normalise_witness:
  "positiveNumber (InNumber (Fin 500000))
   \<and> usrBitrates_audio (setAudioBitrate (InNumber (Fin 500000)) (newEngine DEFAULTS)) = Fin 500000
   \<and> \<not> positiveNumber (InString ''500000'')
   \<and> usrBitrates_audio (setAudioBitrate (InString ''500000'') (newEngine DEFAULTS)) = PInf
   \<and> \<not> positiveNumber (InNumber NaN)
   \<and> bufSizes_video (setVideoBufferSize DEFAULTS (InNumber NaN) (newEngine DEFAULTS)) = Fin 30"
proof -
  have p: "positiveNumber (InNumber (Fin 500000))" by (simp add: positiveNumber_def)
  have q: "\<not> positiveNumber (InString ''500000'')" by (simp add: positiveNumber_def)
  have r: "\<not> positiveNumber (InNumber NaN)" by (simp add: positiveNumber_def)
  from setters_normalise[of "InNumber (Fin 500000)" "newEngine DEFAULTS" DEFAULTS] p
  have a: "usrBitrates_audio (setAudioBitrate (InNumber (Fin 500000)) (newEngine DEFAULTS))
             = Fin 500000"
    by (simp add: numberOf_def)
  from setters_normalise[of "InString ''500000''" "newEngine DEFAULTS" DEFAULTS] q
  have b: "usrBitrates_audio (setAudioBitrate (InString ''500000'') (newEngine DEFAULTS)) = PInf"
    by simp
  from setters_normalise[of "InNumber NaN" "newEngine DEFAULTS" DEFAULTS] r
  have c: "bufSizes_video (setVideoBufferSize DEFAULTS (InNumber NaN) (newEngine DEFAULTS))
             = Fin 30"
    by (simp add: DEFAULTS_def)
  from p q r a b c show ?thesis by blast
qed

section \<open>The width bound\<close>

lemma sort_key_twice: "sort_key f (sort_key f xs) = sort_key f xs"
  by (rule sort_key_id_if_sorted) simp

lemma maxUseful_array: "snd (getMaxUsefulBitrateforWidth reps w) = sort_key width reps"
  by (simp add: getMaxUsefulBitrateforWidth_def Let_def split: option.splits list.splits)

lemma maxUseful_sorted_arg:
  "getMaxUsefulBitrateforWidth (sort_key width reps) w = getMaxUsefulBitrateforWidth reps w"
  by (simp add: getMaxUsefulBitrateforWidth_def sort_key_twice)


lemma maxUseful_wide_enough:
  assumes "\<exists>r\<in>set reps. w \<le> width r"
  shows "fst (getMaxUsefulBitrateforWidth reps (Fin w)) = Rep (hd (sort_key width reps))"
proof -
  let ?s = "sort_key width reps"
  have "\<exists>r\<in>set ?s. js_ge (Fin (width r)) (Fin w)"
    using assms by (simp add: js_ge_def)
  then have "List.find (\<lambda>r. js_ge (Fin (width r)) (Fin w)) ?s \<noteq> None"
    by (auto simp: find_None_iff)
  then obtain m where m: "List.find (\<lambda>r. js_ge (Fin (width r)) (Fin w)) ?s = Some m"
    by blast
  have "?s \<noteq> []" using assms by (metis empty_iff set_empty set_sort)
  then obtain r rs where s: "?s = r # rs" by (cases ?s) auto
  show ?thesis
    using m s by (simp add: getMaxUsefulBitrateforWidth_def Let_def)
qed

lemma maxUseful_too_wide:
  assumes "\<forall>r\<in>set reps. width r < w"
  shows "fst (getMaxUsefulBitrateforWidth reps (Fin w)) = Num PInf"
proof -
  have "List.find (\<lambda>r. js_ge (Fin (width r)) (Fin w)) (sort_key width reps) = None"
    using assms by (auto simp: find_None_iff js_ge_def)
  then show ?thesis by (simp add: getMaxUsefulBitrateforWidth_def Let_def)
qed

text \<open>
  Claim C1.  \<open>getMaxUsefulBitrateforWidth\<close> is to return the highest bitrate among the
  Representations no wider than the narrowest one that is at least as wide as the
  target: 4000000 for widths 640, 1280, 1920, 3840, bitrates of 1, 2, 4, 8 Mbit/s and
  target width 1920.  Run on that input, the function returns no bitrate but the first
  Representation of the sorted array: its filter compares every width with the
  Representation object \<open>maxWidth\<close> and keeps nothing.
\<close>

theorem maxUseful_scenario_returns_object:
  "fst (getMaxUsefulBitrateforWidth (representations exampleVideo) (Fin 1920)) = Rep rep640
   \<and> maxUsefulBitrate_spec (representations exampleVideo) 1920 = Fin 4000000
   \<and> bitrate rep1920 = 4000000"
  by (simp add: getMaxUsefulBitrateforWidth_def maxUsefulBitrate_spec_def js_ge_def Let_def
      exampleVideo_def rep640_def rep1280_def rep1920_def rep3840_def)

text \<open>
  Claim C4.  \<open>getMaxUsefulBitrateforWidth\<close> is to be non-decreasing in the target width
  and to return Infinity for a target wider than every Representation.  On the example
  ladder it returns Infinity for the target 4000, and for the targets 1280 and 1920 one
  and the same Representation object.  The results for 1280 and 1920 are at most each
  other, but the result for 1920 is not at most the result for 4000: an object compared
  with Infinity is compared as NaN.  Handed to \<open>Math.min\<close> with a user maximum, the
  object gives NaN.
\<close>

theorem maxUseful_object_not_below_infinity:
  "fst (getMaxUsefulBitrateforWidth (representations exampleVideo) (Fin 1280)) = Rep rep640
   \<and> fst (getMaxUsefulBitrateforWidth (representations exampleVideo) (Fin 1920)) = Rep rep640
   \<and> fst (getMaxUsefulBitrateforWidth (representations exampleVideo) (Fin 4000)) = Num PInf
   \<and> js_le_val (fst (getMaxUsefulBitrateforWidth (representations exampleVideo) (Fin 1280)))
                (fst (getMaxUsefulBitrateforWidth (representations exampleVideo) (Fin 1920)))
   \<and> js_le (Fin 1920) (Fin 4000)
   \<and> \<not> js_le_val (fst (getMaxUsefulBitrateforWidth (representations exampleVideo) (Fin 1920)))
                  (fst (getMaxUsefulBitrateforWidth (representations exampleVideo) (Fin 4000)))
   \<and> math_min (toNumber (fst (getMaxUsefulBitrateforWidth (representations exampleVideo)
                               (Fin 1920)))) (Fin 8000000) = NaN"
  by (simp add: getMaxUsefulBitrateforWidth_def js_ge_def Let_def
      exampleVideo_def rep640_def rep1280_def rep1920_def rep3840_def)

text \<open>
  Claim C5.  A call of \<open>getBufferAdapters\<close>, with its inner call of
  \<open>getMaxUsefulBitrateforWidth\<close>, is to leave the list of Representations it is given
  with the same elements in the same order.  Run on the Representations in the order
  1280, 640, 1920, 3840, \<open>getMaxUsefulBitrateforWidth\<close> leaves the array in the order
  640, 1280, 1920, 3840, and so does subscribing to the video Adaptation when the width
  limit is enabled.
\<close>

theorem maxUseful_reorders_array:
  "representations unsortedVideo = [rep1280, rep640, rep1920, rep3840]
   \<and> snd (getMaxUsefulBitrateforWidth (representations unsortedVideo) (Fin 1920))
       = [rep640, rep1280, rep1920, rep3840]
   \<and> snd (getMaxUsefulBitrateforWidth (representations unsortedVideo) (Fin 1920))
       \<noteq> representations unsortedVideo
   \<and> map_sum id (\<lambda>r. c_reps (fst (fst r)))
        (getBufferAdapters (DEFAULTS\<lparr>limitVideoWidth := True\<rparr>)
           (newEngine (DEFAULTS\<lparr>limitVideoWidth := True\<rparr>)) (Fin 1920) False unsortedVideo)
       = Inr [rep640, rep1280, rep1920, rep3840]"
proof -
  have a: "representations unsortedVideo = [rep1280, rep640, rep1920, rep3840]"
    by (simp add: unsortedVideo_def exampleVideo_def)
  have s: "sort_key width [rep1280, rep640, rep1920, rep3840] = [rep640, rep1280, rep1920, rep3840]"
    by (simp add: rep640_def rep1280_def rep1920_def rep3840_def)
  have b: "snd (getMaxUsefulBitrateforWidth (representations unsortedVideo) (Fin 1920))
       = [rep640, rep1280, rep1920, rep3840]"
    by (simp only: maxUseful_array a s)
  have c: "[rep640, rep1280, rep1920, rep3840] \<noteq> [rep1280, rep640, rep1920, rep3840]"
    by (simp add: rep640_def rep1280_def)
  have ty: "type unsortedVideo = Video" by (simp add: unsortedVideo_def exampleVideo_def)
  have d: "map_sum id (\<lambda>r. c_reps (fst (fst r)))
        (getBufferAdapters (DEFAULTS\<lparr>limitVideoWidth := True\<rparr>)
           (newEngine (DEFAULTS\<lparr>limitVideoWidth := True\<rparr>)) (Fin 1920) False unsortedVideo)
       = Inr [rep640, rep1280, rep1920, rep3840]"
    using b
    by (simp add: getBufferAdapters_def Let_def a ty startConsumer_def refreshMax_def
        videoMaxBitrates_def split_beta DEFAULTS_def)
  show ?thesis using a b c d by simp
qed

section \<open>Calling a setter twice\<close>

lemma videoMax_again:
  "videoMaxBitrates opts bs (snd (videoMaxBitrates opts bs reps v w h)) v w h
     = videoMaxBitrates opts bs reps v w h"
  by (simp add: videoMaxBitrates_def split_beta maxUseful_array maxUseful_sorted_arg)

lemma refreshMax_keeps:
  "c_type (refreshMax opts bs cs) = c_type cs"
  "c_usr (refreshMax opts bs cs) = c_usr cs"
  "c_maxSet (refreshMax opts bs cs) = c_maxSet cs"
  "c_width (refreshMax opts bs cs) = c_width cs"
  "c_hidden (refreshMax opts bs cs) = c_hidden cs"
  "c_avr (refreshMax opts bs cs) = c_avr cs"
  "c_key (refreshMax opts bs cs) = c_key cs"
  "c_closed (refreshMax opts bs cs) = c_closed cs"
  by (simp_all add: refreshMax_def split_beta)

lemma refreshMax_again:
  assumes "c_type cs2 = c_type cs" "c_maxSet cs2 = c_maxSet cs" "c_width cs2 = c_width cs"
    "c_hidden cs2 = c_hidden cs" "c_reps cs2 = c_reps (refreshMax opts bs cs)"
  shows "c_max (refreshMax opts bs cs2) = c_max (refreshMax opts bs cs)
       \<and> c_reps (refreshMax opts bs cs2) = c_reps (refreshMax opts bs cs)"
proof (cases "c_type cs = Video")
  case True
  have r: "c_reps (refreshMax opts bs cs)
      = snd (videoMaxBitrates opts bs (c_reps cs) (c_maxSet cs) (c_width cs) (c_hidden cs))"
    using True by (simp add: refreshMax_def split_beta)
  show ?thesis
    using True assms(1-4)
    by (simp add: refreshMax_def split_beta assms(5) r videoMax_again)
next
  case False
  then show ?thesis using assms by (simp add: refreshMax_def)
qed

lemma recompute_keeps:
  "c_type (fst (recompute bs cs)) = c_type cs"
  "c_usr (fst (recompute bs cs)) = c_usr cs"
  "c_maxSet (fst (recompute bs cs)) = c_maxSet cs"
  "c_width (fst (recompute bs cs)) = c_width cs"
  "c_hidden (fst (recompute bs cs)) = c_hidden cs"
  "c_max (fst (recompute bs cs)) = c_max cs"
  "c_avr (fst (recompute bs cs)) = c_avr cs"
  "c_reps (fst (recompute bs cs)) = c_reps cs"
  by (simp_all add: recompute_def distinctById_def split: option.splits)

lemma recompute_key:
  assumes "\<not> c_closed (fst (recompute bs cs))"
  shows "\<exists>k b. c_key (fst (recompute bs cs)) = Some k \<and> picked bs cs = Some b
               \<and> rep_id k = rep_id b"
  using assms
  by (auto simp: recompute_def distinctById_def picked_def split: option.splits if_splits)

lemma recompute_silent:
  assumes "c_key cs = Some k" "picked bs cs = Some b" "rep_id k = rep_id b"
  shows "snd (recompute bs cs) = []"
  using assms by (simp add: recompute_def distinctById_def picked_def)

lemma picked_cong:
  assumes "c_reps cs2 = c_reps cs" "c_usr cs2 = c_usr cs" "c_max cs2 = c_max cs"
    "c_avr cs2 = c_avr cs"
  shows "picked bs cs2 = picked bs cs"
  using assms by (simp add: picked_def)

lemma usr_twice:
  "snd (onEvent opts bs (UsrBitrate v) (fst (onEvent opts bs (UsrBitrate v) cs))) = []"
proof (cases "c_closed cs")
  case True
  then show ?thesis by (simp add: onEvent_def)
next
  case False
  let ?cs' = "cs\<lparr>c_usr := v\<rparr>"
  let ?cs1 = "fst (recompute bs ?cs')"
  have first: "fst (onEvent opts bs (UsrBitrate v) cs) = ?cs1"
    using False by (simp add: onEvent_def)
  show ?thesis
  proof (cases "c_closed ?cs1")
    case True
    then show ?thesis by (simp add: first onEvent_def)
  next
    case open1: False
    from recompute_key[OF open1] obtain k b where
      kb: "c_key ?cs1 = Some k" "picked bs ?cs' = Some b" "rep_id k = rep_id b" by blast
    let ?cs2 = "?cs1\<lparr>c_usr := v\<rparr>"
    have "picked bs ?cs2 = picked bs ?cs'"
      by (rule picked_cong) (simp_all add: recompute_keeps)
    with kb have "snd (recompute bs ?cs2) = []"
      by (intro recompute_silent[where k = k and b = b]) simp_all
    then show ?thesis using open1 by (simp add: first onEvent_def)
  qed
qed

lemma max_twice:
  "snd (onEvent opts bs (MaxBitrate v) (fst (onEvent opts bs (MaxBitrate v) cs))) = []"
proof (cases "c_closed cs")
  case True
  then show ?thesis by (simp add: onEvent_def)
next
  case False
  let ?cs0 = "cs\<lparr>c_maxSet := v\<rparr>"
  let ?cs' = "refreshMax opts bs ?cs0"
  let ?cs1 = "fst (recompute bs ?cs')"
  have first: "fst (onEvent opts bs (MaxBitrate v) cs) = ?cs1"
    using False by (simp add: onEvent_def)
  show ?thesis
  proof (cases "c_closed ?cs1")
    case True
    then show ?thesis by (simp add: first onEvent_def)
  next
    case open1: False
    from recompute_key[OF open1] obtain k b where
      kb: "c_key ?cs1 = Some k" "picked bs ?cs' = Some b" "rep_id k = rep_id b" by blast
    let ?cs2 = "refreshMax opts bs (?cs1\<lparr>c_maxSet := v\<rparr>)"
    have again: "c_max ?cs2 = c_max ?cs' \<and> c_reps ?cs2 = c_reps ?cs'"
      by (rule refreshMax_again) (simp_all add: recompute_keeps refreshMax_keeps)
    have "picked bs ?cs2 = picked bs ?cs'"
      by (rule picked_cong) (simp_all add: again refreshMax_keeps recompute_keeps)
    moreover have "c_key ?cs2 = Some k" using kb(1) by (simp add: refreshMax_keeps)
    ultimately have "snd (recompute bs ?cs2) = []"
      using kb by (intro recompute_silent[where k = k and b = b]) simp_all
    then show ?thesis using open1 by (simp add: first onEvent_def)
  qed
qed

lemma onEvent_type: "c_type (fst (onEvent opts bs ev cs)) = c_type cs"
  by (cases ev) (simp_all add: onEvent_def recompute_keeps refreshMax_keeps)

lemma same_call_twice:
  "fst (snd (callSetter opts bs c (fst (callSetter opts bs c s)))) = []
   \<and> snd (snd (callSetter opts bs c (fst (callSetter opts bs c s))))
       = snd (snd (callSetter opts bs c s))"
proof -
  obtain e cs where s: "s = (e, cs)" by (cases s)
  show ?thesis
    unfolding s
    by (cases c)
       (simp_all add: Let_def split_beta usr_twice max_twice onEvent_type
          setAudioBitrate_def setVideoBitrate_def setAudioMaxBitrate_def setVideoMaxBitrate_def
          setAudioBufferSize_def setVideoBufferSize_def)
qed

lemma sameNormalized_call:
  assumes "sameNormalized opts c1 c2"
  shows "callSetter opts bs c2 s = callSetter opts bs c1 s"
proof -
  obtain e cs where s: "s = (e, cs)" by (cases s)
  show ?thesis
    using assms unfolding s
    by (cases c1; cases c2)
       (simp_all add: setAudioBitrate_def setVideoBitrate_def setAudioMaxBitrate_def
          setVideoMaxBitrate_def setAudioBufferSize_def setVideoBufferSize_def)
qed

lemma audioConsumer_eq:
  "audioConsumer = \<lparr> c_type = Audio, c_usr = PInf, c_maxSet = PInf, c_width = Fin 1920,
      c_hidden = False, c_max = Num PInf, c_avr = Num (Fin 64000),
      c_reps = [aud64, aud128], c_key = Some aud64, c_closed = False, c_evals = 1 \<rparr>"
  by (simp add: audioConsumer_def startConsumer_def refreshMax_def pickRepresentation_def
      getClosestBitrate_def at_bitrates_def Let_def aud64_def aud128_def)

lemma getAvailableBitrates_exampleAudio: "getAvailableBitrates exampleAudio = [64000, 128000]"
  by (simp add: getAvailableBitrates_def exampleAudio_def aud64_def aud128_def)

lemma audioConsumer_subscribed:
  "getBufferAdapters DEFAULTS (newEngine DEFAULTS) (Fin 1920) False exampleAudio
     = Inr ((audioConsumer, [Next (Some aud64)]), Fin 30)"
  by (simp add: getBufferAdapters_def getAvailableBitrates_exampleAudio Let_def)
     (simp add: exampleAudio_def audioConsumer_def startConsumer_def refreshMax_def
        pickRepresentation_def getClosestBitrate_def at_bitrates_def Let_def aud64_def aud128_def
        newEngine_def DEFAULTS_def bufferSizes_def)

lemma first_call:
  "callSetter DEFAULTS [64000, 128000] (SetAudioBitrate (InNumber (Fin 128000)))
      (newEngine DEFAULTS, audioConsumer)
   = ((setAudioBitrate (InNumber (Fin 128000)) (newEngine DEFAULTS),
       audioConsumer\<lparr>c_usr := Fin 128000, c_key := Some aud128, c_evals := 2\<rparr>),
      [Next (Some aud128)], [])"
  by (simp add: audioConsumer_eq setAudioBitrate_def def_def js_gt_def onEvent_def recompute_def
      distinctById_def pickRepresentation_def getClosestBitrate_def at_bitrates_def
      aud64_def aud128_def)

text \<open>
  Claim C9, as amended.  When a setter is called twice in a row with arguments that
  normalise to the same value, the second call makes the \<open>representations\<close> stream of
  a subscription emit nothing, and the \<open>bufferSizes\<close> stream emits on the second call
  what it emitted on the first.  The claim as stated also promises that the second call
  recomputes nothing and emits nothing: on the example below the second
  \<open>setAudioBitrate(128000)\<close> evaluates the pick a third time, and the second
  \<open>setAudioBufferSize(10)\<close> emits 10 again.
\<close>

theorem repeated_setter_silent:
  assumes "sameNormalized opts c1 c2"
  shows "fst (snd (callSetter opts bs c2 (fst (callSetter opts bs c1 s)))) = []
       \<and> snd (snd (callSetter opts bs c2 (fst (callSetter opts bs c1 s))))
           = snd (snd (callSetter opts bs c1 s))"
  using same_call_twice[of opts bs c1 s] sameNormalized_call[OF assms, of bs]
  by simp

theorem repeated_setter_silent_witness:
  "sameNormalized DEFAULTS (SetAudioBitrate (InNumber (Fin 128000)))
      (SetAudioBitrate (InNumber (Fin 128000)))
   \<and> fst (snd (callSetter DEFAULTS [64000, 128000] (SetAudioBitrate (InNumber (Fin 128000)))
        (fst (callSetter DEFAULTS [64000, 128000] (SetAudioBitrate (InNumber (Fin 128000)))
           (newEngine DEFAULTS, audioConsumer))))) = []
   \<and> sameNormalized DEFAULTS (SetVideoMaxBitrate (InString ''high''))
      (SetVideoMaxBitrate (InNumber (Fin 0)))"
proof -
  have h: "sameNormalized DEFAULTS (SetAudioBitrate (InNumber (Fin 128000)))
      (SetAudioBitrate (InNumber (Fin 128000)))"
    by simp
  have k: "sameNormalized DEFAULTS (SetVideoMaxBitrate (InString ''high''))
      (SetVideoMaxBitrate (InNumber (Fin 0)))"
    by (simp add: def_def js_gt_def)
  from repeated_setter_silent[OF h, of "[64000, 128000]" "(newEngine DEFAULTS, audioConsumer)"]
  have "fst (snd (callSetter DEFAULTS [64000, 128000] (SetAudioBitrate (InNumber (Fin 128000)))
        (fst (callSetter DEFAULTS [64000, 128000] (SetAudioBitrate (InNumber (Fin 128000)))
           (newEngine DEFAULTS, audioConsumer))))) = []"
    by (rule conjunct1)
  with h k show ?thesis by blast
qed

theorem repeated_setter_counterexample:
  "fst (snd (callSetter DEFAULTS [64000, 128000] (SetAudioBitrate (InNumber (Fin 128000)))
        (newEngine DEFAULTS, audioConsumer))) = [Next (Some aud128)]
   \<and> c_evals (snd (fst (callSetter DEFAULTS [64000, 128000]
        (SetAudioBitrate (InNumber (Fin 128000))) (newEngine DEFAULTS, audioConsumer)))) = 2
   \<and> c_evals (snd (fst (callSetter DEFAULTS [64000, 128000]
        (SetAudioBitrate (InNumber (Fin 128000)))
        (fst (callSetter DEFAULTS [64000, 128000] (SetAudioBitrate (InNumber (Fin 128000)))
           (newEngine DEFAULTS, audioConsumer)))))) = 3
   \<and> snd (snd (callSetter DEFAULTS [64000, 128000] (SetAudioBufferSize (InNumber (Fin 10)))
        (fst (callSetter DEFAULTS [64000, 128000] (SetAudioBufferSize (InNumber (Fin 10)))
           (newEngine DEFAULTS, audioConsumer))))) = [Fin 10]"
proof -
  have second: "c_evals (snd (fst (callSetter DEFAULTS [64000, 128000]
        (SetAudioBitrate (InNumber (Fin 128000)))
        (fst (callSetter DEFAULTS [64000, 128000] (SetAudioBitrate (InNumber (Fin 128000)))
           (newEngine DEFAULTS, audioConsumer)))))) = 3"
    unfolding first_call
    by (simp add: audioConsumer_eq setAudioBitrate_def def_def js_gt_def onEvent_def
        recompute_def distinctById_def pickRepresentation_def getClosestBitrate_def
        at_bitrates_def aud64_def aud128_def)
  have buf: "snd (snd (callSetter DEFAULTS [64000, 128000] (SetAudioBufferSize (InNumber (Fin 10)))
        (fst (callSetter DEFAULTS [64000, 128000] (SetAudioBufferSize (InNumber (Fin 10)))
           (newEngine DEFAULTS, audioConsumer))))) = [Fin 10]"
    by (simp add: audioConsumer_eq setAudioBufferSize_def def_def js_gt_def)
  have emitted: "fst (snd (callSetter DEFAULTS [64000, 128000]
        (SetAudioBitrate (InNumber (Fin 128000))) (newEngine DEFAULTS, audioConsumer)))
      = [Next (Some aud128)]"
    unfolding first_call by simp
  have first: "c_evals (snd (fst (callSetter DEFAULTS [64000, 128000]
        (SetAudioBitrate (InNumber (Fin 128000))) (newEngine DEFAULTS, audioConsumer)))) = 2"
    unfolding first_call by simp
  show ?thesis
    by (intro conjI emitted first second buf)
qed

end
